theory Spec2Isabelle
  imports Main "HOL-Library.AList"
begin

section \<open>Field dependency manager (internal/fields/dependency_manager.go)\<close>

subsection \<open>Dynamic values and attribute maps\<close>

text \<open>
  A field node is a \<^verbatim>\<open>common.MapStr\<close>, that is a \<^verbatim>\<open>map[string]interface{}\<close>.
  The dynamic values that flow through the dependency manager are \<^verbatim>\<open>nil\<close>, strings,
  booleans, other scalars, \<^verbatim>\<open>[]string\<close> (the \<^verbatim>\<open>normalize\<close> attribute),
  \<^verbatim>\<open>[]interface{}\<close> (a decoded sequence), \<^verbatim>\<open>[]common.MapStr\<close> (a sequence the
  manager has built) and nested maps. The two sequence containers are kept apart,
  because the type switch of \<^verbatim>\<open>skipField\<close> tells them apart.

  A map is an association list; every operation reads it through \<open>map_of\<close>, so the first
  entry of a key is the entry of that key.
\<close>

datatype val =
    VNil
  | VString string
  | VBool bool
  | VInt int
  | VStrings "string list"
  | VList "val list"
  | VMapStrs "(string \<times> val) list list"
  | VMap "(string \<times> val) list"

type_synonym MapStr = "(string \<times> val) list"

text \<open>
  Errors are values. \<open>ErrExternal\<close> stands for an error that comes from outside the
  package (the operating system, the HTTP transport, the YAML decoder, the location
  manager); \<open>Wrap err msg\<close> is \<^verbatim>\<open>errors.Wrap(err, msg)\<close>. The other constructors are
  the errors the package creates itself, with the values their messages are formatted
  from.
\<close>

datatype error =
    ErrKeyNotFound
  | ErrNotMapStrSlice
  | ErrExternalFieldsNotAllowed string
  | ErrSchemaNotDefined string
  | ErrFieldDefinitionNotFound string
  | ErrInvalidGitReference
  | ErrUnsatisfiedDependency string
  | ErrUnexpectedStatus int
  | ErrExternal
  | Wrap error string

text \<open>
  Modelled from the spec: \<^verbatim>\<open>common.MapStr\<close> and its methods \<^verbatim>\<open>GetValue\<close>,
  \<^verbatim>\<open>Put\<close>, \<^verbatim>\<open>Delete\<close> and \<^verbatim>\<open>DeepUpdate\<close> are not part of the sources at hand.
  The spec describes a node as a generic attribute map with unique keys. The manager
  only ever uses the undotted keys \<^verbatim>\<open>name\<close>, \<^verbatim>\<open>type\<close>, \<^verbatim>\<open>external\<close>,
  \<^verbatim>\<open>fields\<close> and \<^verbatim>\<open>multi_fields\<close>, for which the operations are plain lookup,
  store and removal. \<open>GetValue\<close> returns the value together with an error, as in Go;
  every call site drops the error and keeps the value, which is \<^verbatim>\<open>nil\<close> on a miss.
\<close>

definition GetValue :: "MapStr \<Rightarrow> string \<Rightarrow> val \<times> error option" where
  "GetValue m key =
     (case map_of m key of
        None \<Rightarrow> (VNil, Some ErrKeyNotFound)
      | Some v \<Rightarrow> (v, None))"

definition Put :: "MapStr \<Rightarrow> string \<Rightarrow> val \<Rightarrow> MapStr" where
  "Put m key v = AList.update key v m"

definition Delete :: "MapStr \<Rightarrow> string \<Rightarrow> MapStr" where
  "Delete m key = AList.delete key m"

text \<open>
  Modelled from the spec: \<^verbatim>\<open>DeepUpdate\<close> "deep-merges the local node's own
  attributes on top of the transformed map (local values win on conflict)". A value of
  \<open>d\<close> that is a map is merged into the map stored under the same key, when there is
  one; every other value replaces what is stored. Go ranges over the keys of \<open>d\<close> in no
  fixed order and each key occurs once; the entries are visited here so that the entry
  \<open>map_of\<close> finds for a key is the one that takes effect.
\<close>

fun DeepUpdate :: "MapStr \<Rightarrow> MapStr \<Rightarrow> MapStr" where
  "DeepUpdate m [] = m"
| "DeepUpdate m ((k, v) # d) =
     (let m' = DeepUpdate m d in
      AList.update k
        (case v of
           VMap val \<Rightarrow>
             (case map_of m' k of
                Some (VMap sub) \<Rightarrow> VMap (DeepUpdate sub val)
              | _ \<Rightarrow> VMap val)
         | _ \<Rightarrow> v) m')"

text \<open>
  Modelled from the spec: \<^verbatim>\<open>common.ToMapStrSlice\<close> is not part of the sources at hand.
  It converts the value of a \<^verbatim>\<open>fields\<close> attribute, "a nested sequence of the same
  shape", into a slice of attribute maps, and fails on anything that is not a sequence of
  maps.
\<close>

fun toMapStr :: "val \<Rightarrow> error + MapStr" where
  "toMapStr (VMap m) = Inr m"
| "toMapStr _ = Inl ErrNotMapStrSlice"

fun toMapStrs :: "val list \<Rightarrow> error + MapStr list" where
  "toMapStrs [] = Inr []"
| "toMapStrs (v # vs) =
     (case toMapStr v of
        Inl err \<Rightarrow> Inl err
      | Inr m \<Rightarrow> (case toMapStrs vs of Inl err \<Rightarrow> Inl err | Inr ms \<Rightarrow> Inr (m # ms)))"

fun ToMapStrSlice :: "val \<Rightarrow> error + MapStr list" where
  "ToMapStrSlice (VList vs) = toMapStrs vs"
| "ToMapStrSlice (VMapStrs ms) = Inr ms"
| "ToMapStrSlice _ = Inl ErrNotMapStrSlice"

subsection \<open>The prune rule\<close>

text \<open>
  \<^verbatim>\<open>skipField\<close> (lines 202-217): \<^verbatim>\<open>t == "group"\<close> compares an interface value
  with a string, so it holds for the string \<^verbatim>\<open>group\<close> only; the type switch has the
  cases \<^verbatim>\<open>nil\<close>, \<^verbatim>\<open>[]interface{}\<close> and \<^verbatim>\<open>[]common.MapStr\<close>, and every other
  value falls through to \<^verbatim>\<open>return false\<close>.
\<close>

definition skipField :: "MapStr \<Rightarrow> bool" where
  "skipField def =
     (let t = fst (GetValue def ''type'') in
      if t = VString ''group'' then
        (let fields = fst (GetValue def ''fields'') in
         case fields of
           VNil \<Rightarrow> True
         | VList fs \<Rightarrow> length fs = 0
         | VMapStrs fs \<Rightarrow> length fs = 0
         | _ \<Rightarrow> False)
      else False)"

subsection \<open>Schema definitions and their lookup\<close>

text \<open>
  Modelled from the spec: the declaration of \<^verbatim>\<open>FieldDefinition\<close> is not part of the
  sources at hand. The members are the ones \<^verbatim>\<open>transformImportedField\<close> reads and the
  spec lists; \<^verbatim>\<open>Index\<close> and \<^verbatim>\<open>DocValues\<close> are \<^verbatim>\<open>*bool\<close>, absent or set.
\<close>

datatype FieldDefinition =
  FieldDefinition
    (Name: string)
    (Type: string)
    (Description: string)
    (Pattern: string)
    (Index: "bool option")
    (DocValues: "bool option")
    (Normalize: "string list")
    (MultiFields: "FieldDefinition list")

text \<open>\<^verbatim>\<open>strings.Split(path, ".")\<close>: the segments between the dots, at least one.\<close>

fun splitOn :: "char \<Rightarrow> string \<Rightarrow> string list" where
  "splitOn c [] = [[]]"
| "splitOn c (x # xs) =
     (if x = c then [] # splitOn c xs
      else (case splitOn c xs of
              [] \<Rightarrow> [[x]]
            | seg # segs \<Rightarrow> (x # seg) # segs))"

text \<open>
  Modelled from the spec: \<^verbatim>\<open>FindElementDefinition\<close> is not part of the sources at hand.
  "The search matches the first segment against top-level definitions' Name; on match, if
  more segments remain, it descends into that definition's nested fields and repeats with
  the remaining path; if no segments remain, that definition is the result. No match at
  any level yields not found"; "first match wins".
\<close>

fun findSegments :: "string list \<Rightarrow> FieldDefinition list \<Rightarrow> FieldDefinition option" where
  "findSegments [] defs = None"
| "findSegments (seg # rest) defs =
     (case List.find (\<lambda>d. Name d = seg) defs of
        None \<Rightarrow> None
      | Some d \<Rightarrow> if rest = [] then Some d else findSegments rest (MultiFields d))"

definition FindElementDefinition :: "string \<Rightarrow> FieldDefinition list \<Rightarrow> FieldDefinition option" where
  "FindElementDefinition searchedKey fieldDefinitions =
     findSegments (splitOn CHR ''.'' searchedKey) fieldDefinitions"

subsection \<open>The dependency manager\<close>

text \<open>
  \<^verbatim>\<open>DependencyManager\<close> (lines 33-35). The methods take a \<^verbatim>\<open>*DependencyManager\<close>,
  which may be nil: \<open>None\<close> here.
\<close>

record DependencyManager =
  schema :: "string \<rightharpoonup> FieldDefinition list"

text \<open>\<^verbatim>\<open>ImportField\<close> (lines 220-234).\<close>

definition ImportField ::
  "DependencyManager option \<Rightarrow> string \<Rightarrow> string \<Rightarrow> error + FieldDefinition" where
  "ImportField dm schemaName fieldPath =
     (case dm of
        None \<Rightarrow> Inl (ErrExternalFieldsNotAllowed fieldPath)
      | Some m \<Rightarrow>
          (case schema m schemaName of
             None \<Rightarrow> Inl (ErrSchemaNotDefined schemaName)
           | Some sch \<Rightarrow>
               (case FindElementDefinition fieldPath sch of
                  None \<Rightarrow> Inl (ErrFieldDefinitionNotFound fieldPath)
                | Some imported \<Rightarrow> Inr imported)))"

text \<open>
  A failed unchecked type assertion panics: the call returns nothing at all. \<open>Panics\<close>
  is that outcome, \<open>Returns\<close> carries what the function returns otherwise.
\<close>

datatype 'a outcome = Panics | Returns 'a

text \<open>
  The unchecked type assertion \<^verbatim>\<open>v.(string)\<close>, and \<^verbatim>\<open>buildFieldPath\<close>
  (lines 236-245), which applies it to the value of \<^verbatim>\<open>name\<close>.
\<close>

definition assertString :: "val \<Rightarrow> string outcome" where
  "assertString v = (case v of VString s \<Rightarrow> Returns s | _ \<Rightarrow> Panics)"

definition buildFieldPath :: "string \<Rightarrow> MapStr \<Rightarrow> string outcome" where
  "buildFieldPath root field =
     (let path = root;
          path = (if root \<noteq> '''' then path @ ''.'' else path);
          fieldName = fst (GetValue field ''name'')
      in case assertString fieldName of
           Panics \<Rightarrow> Panics
         | Returns n \<Rightarrow> Returns (path @ n))"

text \<open>\<^verbatim>\<open>transformImportedField\<close> (lines 247-283).\<close>

fun transformImportedField :: "FieldDefinition \<Rightarrow> MapStr" where
  "transformImportedField (FieldDefinition fdName fdType fdDescription fdPattern fdIndex fdDocValues fdNormalize fdMultiFields) =
     (let m = [(''name'', VString fdName), (''type'', VString fdType)];
          m = (if fdDescription \<noteq> '''' then AList.update ''description'' (VString fdDescription) m else m);
          m = (if fdPattern \<noteq> '''' then AList.update ''pattern'' (VString fdPattern) m else m);
          m = (case fdIndex of Some b \<Rightarrow> AList.update ''index'' (VBool b) m | None \<Rightarrow> m);
          m = (case fdDocValues of Some b \<Rightarrow> AList.update ''doc_values'' (VBool b) m | None \<Rightarrow> m);
          m = (if length fdNormalize > 0 then AList.update ''normalize'' (VStrings fdNormalize) m else m);
          m = (if length fdMultiFields > 0
               then Put m ''multi_fields'' (VMapStrs (map transformImportedField fdMultiFields))
               else m)
      in m)"

text \<open>
  The merge of an imported definition with the local node that asked for it: the body of
  the branch \<^verbatim>\<open>external != nil\<close> after the import (lines 159-171).
  \<^verbatim>\<open>transformed["type"].(string)\<close> is the checked form: it yields the empty string
  when the entry is missing or is not a string.
\<close>

definition mergeImported :: "FieldDefinition \<Rightarrow> MapStr \<Rightarrow> MapStr" where
  "mergeImported imported def =
     (let transformed = transformImportedField imported;
          transformed = DeepUpdate transformed def;
          transformed = Delete transformed ''external'';
          ttype = (case map_of transformed ''type'' of Some (VString s) \<Rightarrow> s | _ \<Rightarrow> '''')
      in if ttype \<noteq> ''constant_keyword'' \<or> Type imported \<noteq> ''keyword''
         then AList.update ''type'' (VString (Type imported)) transformed
         else transformed)"

text \<open>The end of the loop body (lines 193-196): a pruned node is not appended.\<close>

definition appendUnlessSkipped :: "MapStr list \<Rightarrow> MapStr \<Rightarrow> MapStr list" where
  "appendUnlessSkipped updated def = (if skipField def then updated else updated @ [def])"

text \<open>The size of a tree, by which the recursion into \<^verbatim>\<open>fields\<close> descends.\<close>

definition treeSize :: "MapStr list \<Rightarrow> nat" where
  "treeSize defs = size (VMapStrs defs)"

lemma size_map_of: "map_of m k = Some v \<Longrightarrow> size v < size (VMap m)"
  by (induction m) (auto split: if_splits)

lemma size_toMapStrs: "toMapStrs vs = Inr ms \<Longrightarrow> size (VMapStrs ms) \<le> size (VList vs)"
proof (induction vs arbitrary: ms)
  case Nil
  then show ?case by simp
next
  case (Cons v vs)
  then show ?case
    by (cases v) (auto split: sum.splits)
qed

lemma size_ToMapStrSlice: "ToMapStrSlice v = Inr ms \<Longrightarrow> size (VMapStrs ms) \<le> size v"
  by (cases v) (auto dest: size_toMapStrs)

lemma treeSize_fields:
  assumes "ToMapStrSlice (fst (GetValue def k)) = Inr ms"
  shows "treeSize ms < treeSize (def # defs)"
proof (cases "map_of def k")
  case None
  with assms show ?thesis by (simp add: GetValue_def)
next
  case (Some v)
  with assms have "size (VMapStrs ms) \<le> size v"
    by (auto simp: GetValue_def dest: size_ToMapStrSlice)
  moreover from Some have "size v < size (VMap def)" by (rule size_map_of)
  ultimately show ?thesis by (simp add: treeSize_def)
qed

lemma treeSize_tail: "treeSize defs < treeSize (def # defs)"
  by (simp add: treeSize_def)

text \<open>
  \<^verbatim>\<open>injectFieldsWithRoot\<close> (lines 146-199). The loop over \<^verbatim>\<open>defs\<close> is the recursion
  on the list, with the loop variables \<^verbatim>\<open>updated\<close> and \<^verbatim>\<open>changed\<close> as arguments. The
  result is Go's triple: the tree (a nil slice is the empty list), the changed flag and
  the error, if any. \<^verbatim>\<open>external.(string)\<close> is unchecked.
\<close>

function injectFieldsLoop ::
  "DependencyManager option \<Rightarrow> string \<Rightarrow> MapStr list \<Rightarrow> MapStr list \<Rightarrow> bool
     \<Rightarrow> (MapStr list \<times> bool \<times> error option) outcome" where
  "injectFieldsLoop dm root [] updated changed = Returns (updated, changed, None)"
| "injectFieldsLoop dm root (def # defs) updated changed =
     (case buildFieldPath root def of
        Panics \<Rightarrow> Panics
      | Returns fieldPath \<Rightarrow>
          (let external = fst (GetValue def ''external'') in
           if external \<noteq> VNil then
             (case assertString external of
                Panics \<Rightarrow> Panics
              | Returns schemaName \<Rightarrow>
                  (case ImportField dm schemaName fieldPath of
                     Inl err \<Rightarrow> Returns ([], False, Some (Wrap err ''can't import field''))
                   | Inr imported \<Rightarrow>
                       injectFieldsLoop dm root defs
                         (appendUnlessSkipped updated (mergeImported imported def)) True))
           else
             (let fieldsVal = fst (GetValue def ''fields'') in
              if fieldsVal \<noteq> VNil then
                (case ToMapStrSlice fieldsVal of
                   Inl err \<Rightarrow> Returns ([], False, Some (Wrap err ''can't convert fields''))
                 | Inr fieldsMs \<Rightarrow>
                     (case injectFieldsLoop dm fieldPath fieldsMs [] False of
                        Panics \<Rightarrow> Panics
                      | Returns (updatedFields, fieldsChanged, Some err) \<Rightarrow>
                          Returns ([], False, Some err)
                      | Returns (updatedFields, fieldsChanged, None) \<Rightarrow>
                          injectFieldsLoop dm root defs
                            (appendUnlessSkipped updated
                               (Put def ''fields'' (VMapStrs updatedFields)))
                            (if fieldsChanged then True else changed)))
              else injectFieldsLoop dm root defs (appendUnlessSkipped updated def) changed)))"
  by pat_completeness auto

termination injectFieldsLoop
  by (relation "measure (\<lambda>(dm, root, defs, updated, changed). treeSize defs)")
     (auto simp: treeSize_tail treeSize_fields)

definition injectFieldsWithRoot ::
  "DependencyManager option \<Rightarrow> string \<Rightarrow> MapStr list
     \<Rightarrow> (MapStr list \<times> bool \<times> error option) outcome" where
  "injectFieldsWithRoot dm root defs = injectFieldsLoop dm root defs [] False"

text \<open>\<^verbatim>\<open>InjectFields\<close> (lines 142-144).\<close>

definition InjectFields ::
  "DependencyManager option \<Rightarrow> MapStr list \<Rightarrow> (MapStr list \<times> bool \<times> error option) outcome" where
  "InjectFields dm defs = injectFieldsWithRoot dm '''' defs"

subsection \<open>The schema loader\<close>

text \<open>
  Modelled from the spec: \<^verbatim>\<open>buildmanifest.Dependencies\<close> and
  \<^verbatim>\<open>buildmanifest.ECSDependency\<close> are declared outside the sources at hand; the
  manager reads \<^verbatim>\<open>deps.ECS\<close> and \<^verbatim>\<open>dep.Reference\<close>, "a reference string with a
  source-control prefix".
\<close>

record ECSDependency =
  Reference :: string

record Dependencies =
  ECS :: ECSDependency

definition ecsSchemaName :: string where
  "ecsSchemaName = ''ecs''"

definition gitReferencePrefix :: string where
  "gitReferencePrefix = ''git@''"

definition ecsSchemaFile :: string where
  "ecsSchemaFile = ''ecs_nested.yml''"

text \<open>\<^verbatim>\<open>fmt.Sprintf(ecsSchemaURL, gitReference, ecsSchemaFile)\<close>.\<close>

definition ecsSchemaURL :: "string \<Rightarrow> string \<Rightarrow> string" where
  "ecsSchemaURL gitReference fileName =
     ''https://raw.githubusercontent.com/elastic/ecs/'' @ gitReference @ ''/generated/ecs/'' @ fileName"

text \<open>
  The loader reads and writes the cache on disk and fetches over HTTP. The state it
  works on is the file system together with the list of the operations performed so far;
  what the outside answers is a parameter of the model: the cache directory of the
  location manager (\<open>None\<close> when \<^verbatim>\<open>locations.NewLocationManager\<close> fails), the response
  to a GET (\<open>TransportError\<close> when \<^verbatim>\<open>http.Get\<close> fails, otherwise the status code and
  the body, \<open>None\<close> when reading the body fails), whether \<^verbatim>\<open>os.MkdirAll\<close> and
  \<^verbatim>\<open>os.WriteFile\<close> fail, and the YAML decoder. Debug logging is left out.
\<close>

datatype fileState = NotExist | Unreadable | Content string

datatype effect =
    ReadFile string
  | HttpGet string
  | MkdirAll string
  | WriteFile string string

datatype response = TransportError | Response int "string option"

record world =
  fs :: "string \<Rightarrow> fileState"
  effects :: "effect list"

record platform =
  fieldsCacheDir :: "string option"
  httpGet :: "string \<Rightarrow> response"
  mkdirAllFails :: "string \<Rightarrow> bool"
  writeFileFails :: "string \<Rightarrow> bool"
  yamlUnmarshal :: "string \<Rightarrow> FieldDefinition list option"

definition perform :: "effect \<Rightarrow> world \<Rightarrow> world" where
  "perform e w = w\<lparr>effects := effects w @ [e]\<rparr>"

text \<open>
  \<^verbatim>\<open>filepath.Join\<close> and \<^verbatim>\<open>filepath.Dir\<close> of the standard library, on components
  that need no cleaning: the components joined by the separator, and the path without
  its last component.
\<close>

fun filepathJoin :: "string list \<Rightarrow> string" where
  "filepathJoin [] = ''''"
| "filepathJoin [x] = x"
| "filepathJoin (x # xs) = x @ ''/'' @ filepathJoin xs"

definition filepathDir :: "string \<Rightarrow> string" where
  "filepathDir path = filepathJoin (butlast (splitOn CHR ''/'' path))"

text \<open>\<^verbatim>\<open>strings.HasPrefix\<close>, and \<^verbatim>\<open>asGitReference\<close> (lines 134-139).\<close>

definition HasPrefix :: "string \<Rightarrow> string \<Rightarrow> bool" where
  "HasPrefix s pre = (length s \<ge> length pre \<and> take (length pre) s = pre)"

definition asGitReference :: "string \<Rightarrow> error + string" where
  "asGitReference reference =
     (if \<not> HasPrefix reference gitReferencePrefix then Inl ErrInvalidGitReference
      else Inr (drop (length gitReferencePrefix) reference))"

text \<open>The path of the cached schema (line 82).\<close>

definition cachedSchemaPathOf :: "string \<Rightarrow> string \<Rightarrow> string" where
  "cachedSchemaPathOf cacheDir gitReference =
     filepathJoin [cacheDir, ecsSchemaName, gitReference, ecsSchemaFile]"

text \<open>\<^verbatim>\<open>readECSFieldsSchemaFile\<close> (lines 72-122).\<close>

definition readECSFieldsSchemaFile ::
  "platform \<Rightarrow> ECSDependency \<Rightarrow> world \<Rightarrow> (error + string) \<times> world" where
  "readECSFieldsSchemaFile pf dep w =
     (case asGitReference (Reference dep) of
        Inl err \<Rightarrow> (Inl (Wrap err ''can't process the value as Git reference''), w)
      | Inr gitReference \<Rightarrow>
          (case fieldsCacheDir pf of
             None \<Rightarrow> (Inl (Wrap ErrExternal ''error fetching profile path''), w)
           | Some cacheDir \<Rightarrow>
               (let cachedSchemaPath = cachedSchemaPathOf cacheDir gitReference;
                    w = perform (ReadFile cachedSchemaPath) w
                in case fs w cachedSchemaPath of
                     NotExist \<Rightarrow>
                       (let url = ecsSchemaURL gitReference ecsSchemaFile;
                            w = perform (HttpGet url) w
                        in case httpGet pf url of
                             TransportError \<Rightarrow>
                               (Inl (Wrap ErrExternal
                                  (''can't download the online schema (URL: '' @ url @ '')'')), w)
                           | Response statusCode body \<Rightarrow>
                               if statusCode = 404 then (Inl (ErrUnsatisfiedDependency url), w)
                               else if statusCode \<noteq> 200 then (Inl (ErrUnexpectedStatus statusCode), w)
                               else
                                 (case body of
                                    None \<Rightarrow>
                                      (Inl (Wrap ErrExternal
                                         (''can't read schema content (URL: '' @ url @ '')'')), w)
                                  | Some content \<Rightarrow>
                                      (let cachedSchemaDir = filepathDir cachedSchemaPath;
                                           w = perform (MkdirAll cachedSchemaDir) w
                                       in if mkdirAllFails pf cachedSchemaDir
                                          then (Inl (Wrap ErrExternal
                                                  (''can't create cache directories for schema (path: ''
                                                     @ cachedSchemaDir @ '')'')), w)
                                          else
                                            (let w = perform (WriteFile cachedSchemaPath content) w
                                             in if writeFileFails pf cachedSchemaPath
                                                then (Inl (Wrap ErrExternal
                                                        (''can't write cached schema (path: ''
                                                           @ cachedSchemaPath @ '')'')), w)
                                                else (Inr content,
                                                      w\<lparr>fs := (fs w)(cachedSchemaPath := Content content)\<rparr>)))))
                   | Unreadable \<Rightarrow>
                       (Inl (Wrap ErrExternal
                          (''can't read cached schema (path: '' @ cachedSchemaPath @ '')'')), w)
                   | Content content \<Rightarrow> (Inr content, w))))"

text \<open>\<^verbatim>\<open>parseECSFieldsSchema\<close> (lines 124-132).\<close>

definition parseECSFieldsSchema :: "platform \<Rightarrow> string \<Rightarrow> error + FieldDefinition list" where
  "parseECSFieldsSchema pf content =
     (case yamlUnmarshal pf content of
        None \<Rightarrow> Inl (Wrap ErrExternal ''unmarshalling field body failed'')
      | Some fieldDefs \<Rightarrow> Inr fieldDefs)"

text \<open>\<^verbatim>\<open>loadECSFieldsSchema\<close> (lines 58-70); a nil slice is the empty list.\<close>

definition loadECSFieldsSchema ::
  "platform \<Rightarrow> ECSDependency \<Rightarrow> world \<Rightarrow> (error + FieldDefinition list) \<times> world" where
  "loadECSFieldsSchema pf dep w =
     (if Reference dep = '''' then (Inr [], w)
      else
        (case readECSFieldsSchemaFile pf dep w of
           (Inl err, w') \<Rightarrow> (Inl (Wrap err ''error reading ECS fields schema file''), w')
         | (Inr content, w') \<Rightarrow> (parseECSFieldsSchema pf content, w')))"

text \<open>\<^verbatim>\<open>buildFieldsSchema\<close> (lines 48-56).\<close>

definition buildFieldsSchema ::
  "platform \<Rightarrow> Dependencies \<Rightarrow> world \<Rightarrow> (error + (string \<rightharpoonup> FieldDefinition list)) \<times> world" where
  "buildFieldsSchema pf deps w =
     (case loadECSFieldsSchema pf (ECS deps) w of
        (Inl err, w') \<Rightarrow> (Inl (Wrap err ''can't load fields''), w')
      | (Inr ecsSchema, w') \<Rightarrow> (Inr (Map.empty(ecsSchemaName \<mapsto> ecsSchema)), w'))"

text \<open>\<^verbatim>\<open>CreateFieldDependencyManager\<close> (lines 38-46).\<close>

definition CreateFieldDependencyManager ::
  "platform \<Rightarrow> Dependencies \<Rightarrow> world \<Rightarrow> (error + DependencyManager) \<times> world" where
  "CreateFieldDependencyManager pf deps w =
     (case buildFieldsSchema pf deps w of
        (Inl err, w') \<Rightarrow> (Inl (Wrap err ''can't build fields schema''), w')
      | (Inr sch, w') \<Rightarrow> (Inr \<lparr>schema = sch\<rparr>, w'))"

text \<open>How many fetches and how many cache writes a world has seen.\<close>

definition isHttpGet :: "effect \<Rightarrow> bool" where
  "isHttpGet e = (case e of HttpGet url \<Rightarrow> True | _ \<Rightarrow> False)"

definition isWriteFile :: "effect \<Rightarrow> bool" where
  "isWriteFile e = (case e of WriteFile path content \<Rightarrow> True | _ \<Rightarrow> False)"

definition fetches :: "world \<Rightarrow> nat" where
  "fetches w = length (filter isHttpGet (effects w))"

definition cacheWrites :: "world \<Rightarrow> nat" where
  "cacheWrites w = length (filter isWriteFile (effects w))"

text \<open>An example platform, which answers every GET with the given status, and a world with an empty cache.\<close>

definition examplePlatform :: "int \<Rightarrow> platform" where
  "examplePlatform statusCode =
     \<lparr>fieldsCacheDir = Some ''/cache'', httpGet = (\<lambda>url. Response statusCode (Some ''[]'')),
      mkdirAllFails = (\<lambda>path. False), writeFileFails = (\<lambda>path. False),
      yamlUnmarshal = (\<lambda>content. Some [])\<rparr>"

definition emptyWorld :: world where
  "emptyWorld = \<lparr>fs = (\<lambda>path. NotExist), effects = []\<rparr>"

subsection \<open>Trees and what injection visits\<close>

definition isString :: "val \<Rightarrow> bool" where
  "isString v = (case v of VString s \<Rightarrow> True | _ \<Rightarrow> False)"

text \<open>
  Every node of the tree, at every depth, has a string under \<^verbatim>\<open>name\<close> and nothing or
  a string under \<^verbatim>\<open>external\<close>. The nodes below a node are the maps of its
  \<^verbatim>\<open>fields\<close> sequence.
\<close>

function wellNamedTree :: "MapStr list \<Rightarrow> bool" where
  "wellNamedTree [] = True"
| "wellNamedTree (def # defs) =
     (isString (fst (GetValue def ''name'')) \<and>
      (fst (GetValue def ''external'') = VNil \<or> isString (fst (GetValue def ''external''))) \<and>
      (case ToMapStrSlice (fst (GetValue def ''fields'')) of
         Inl err \<Rightarrow> True
       | Inr fieldsMs \<Rightarrow> wellNamedTree fieldsMs) \<and>
      wellNamedTree defs)"
  by pat_completeness auto

termination wellNamedTree
  by (relation "measure treeSize") (auto simp: treeSize_tail treeSize_fields)

text \<open>
  A resolution fails in the tree \<open>defs\<close> under the prefix \<open>root\<close>: some node that the
  walk visits asks for an external definition that \<open>ImportField\<close> does not deliver, or
  has a \<^verbatim>\<open>fields\<close> value that does not convert. The walk visits the nodes of the list
  and, below a node without external marker, the nodes of its \<^verbatim>\<open>fields\<close>.
\<close>

inductive resolutionFails :: "DependencyManager option \<Rightarrow> string \<Rightarrow> MapStr list \<Rightarrow> bool"
  for dm :: "DependencyManager option" where
  import_fails:
    "buildFieldPath root def = Returns fieldPath \<Longrightarrow>
     fst (GetValue def ''external'') = VString schemaName \<Longrightarrow>
     ImportField dm schemaName fieldPath = Inl err \<Longrightarrow>
     resolutionFails dm root (def # defs)"
| convert_fails:
    "fst (GetValue def ''external'') = VNil \<Longrightarrow>
     fst (GetValue def ''fields'') \<noteq> VNil \<Longrightarrow>
     ToMapStrSlice (fst (GetValue def ''fields'')) = Inl err \<Longrightarrow>
     resolutionFails dm root (def # defs)"
| nested_fails:
    "buildFieldPath root def = Returns fieldPath \<Longrightarrow>
     fst (GetValue def ''external'') = VNil \<Longrightarrow>
     ToMapStrSlice (fst (GetValue def ''fields'')) = Inr fieldsMs \<Longrightarrow>
     resolutionFails dm fieldPath fieldsMs \<Longrightarrow>
     resolutionFails dm root (def # defs)"
| later_fails:
    "resolutionFails dm root defs \<Longrightarrow> resolutionFails dm root (def # defs)"

text \<open>
  What one pass of the loop body does to a node, given the result of the recursive call
  on its \<^verbatim>\<open>fields\<close>: it panics, it makes the call return an error, or it yields the
  node to append and whether anything changed. \<open>loop_Cons\<close> below shows that the loop
  is the iteration of this step.
\<close>

datatype nodeResult = NodePanics | NodeFails error | NodeDone MapStr bool

definition injectNode :: "DependencyManager option \<Rightarrow> string \<Rightarrow> MapStr \<Rightarrow> nodeResult" where
  "injectNode dm root def =
     (case buildFieldPath root def of
        Panics \<Rightarrow> NodePanics
      | Returns fieldPath \<Rightarrow>
          if fst (GetValue def ''external'') \<noteq> VNil then
            (case assertString (fst (GetValue def ''external'')) of
               Panics \<Rightarrow> NodePanics
             | Returns schemaName \<Rightarrow>
                 (case ImportField dm schemaName fieldPath of
                    Inl err \<Rightarrow> NodeFails (Wrap err ''can't import field'')
                  | Inr imported \<Rightarrow> NodeDone (mergeImported imported def) True))
          else if fst (GetValue def ''fields'') \<noteq> VNil then
            (case ToMapStrSlice (fst (GetValue def ''fields'')) of
               Inl err \<Rightarrow> NodeFails (Wrap err ''can't convert fields'')
             | Inr fieldsMs \<Rightarrow>
                 (case injectFieldsLoop dm fieldPath fieldsMs [] False of
                    Panics \<Rightarrow> NodePanics
                  | Returns (updatedFields, fieldsChanged, Some err) \<Rightarrow> NodeFails err
                  | Returns (updatedFields, fieldsChanged, None) \<Rightarrow>
                      NodeDone (Put def ''fields'' (VMapStrs updatedFields)) fieldsChanged))
          else NodeDone def False)"

subsection \<open>Trees up to the container of their sequences\<close>

text \<open>
  Injection stores the nodes of \<^verbatim>\<open>fields\<close> as \<^verbatim>\<open>[]common.MapStr\<close>, whatever
  container held them before. \<open>canonVal\<close> reads a value without regard to that
  container, and two trees are the same tree when they agree in this reading.
\<close>

fun canonVal :: "val \<Rightarrow> val" where
  "canonVal (VList vs) = VList (map canonVal vs)"
| "canonVal (VMapStrs ms) = VList (map (\<lambda>m. VMap (map (\<lambda>(k, v). (k, canonVal v)) m)) ms)"
| "canonVal (VMap m) = VMap (map (\<lambda>(k, v). (k, canonVal v)) m)"
| "canonVal v = v"

definition sameTree :: "MapStr list \<Rightarrow> MapStr list \<Rightarrow> bool" where
  "sameTree a b = (canonVal (VMapStrs a) = canonVal (VMapStrs b))"

text \<open>No node of the tree, at any depth, has a value under \<^verbatim>\<open>external\<close>.\<close>

function noExternalMarkers :: "MapStr list \<Rightarrow> bool" where
  "noExternalMarkers [] = True"
| "noExternalMarkers (def # defs) =
     (fst (GetValue def ''external'') = VNil \<and>
      (case ToMapStrSlice (fst (GetValue def ''fields'')) of
         Inl err \<Rightarrow> True
       | Inr fieldsMs \<Rightarrow> noExternalMarkers fieldsMs) \<and>
      noExternalMarkers defs)"
  by pat_completeness auto

termination noExternalMarkers
  by (relation "measure treeSize") (auto simp: treeSize_tail treeSize_fields)

text \<open>
  A tree that injection leaves alone: every node, at every depth, has a string name, no
  external marker, is not an empty group, and has under \<^verbatim>\<open>fields\<close> nothing or a
  sequence of nodes.
\<close>

function stableTree :: "MapStr list \<Rightarrow> bool" where
  "stableTree [] = True"
| "stableTree (def # defs) =
     (isString (fst (GetValue def ''name'')) \<and>
      fst (GetValue def ''external'') = VNil \<and>
      (if skipField def then False
       else if fst (GetValue def ''fields'') = VNil then True
       else (case ToMapStrSlice (fst (GetValue def ''fields'')) of
               Inl err \<Rightarrow> False
             | Inr fieldsMs \<Rightarrow> stableTree fieldsMs)) \<and>
      stableTree defs)"
  by pat_completeness auto

termination stableTree
  by (relation "measure treeSize") (auto simp: treeSize_tail treeSize_fields)

abbreviation canonMap :: "MapStr \<Rightarrow> MapStr" where
  "canonMap m \<equiv> map (\<lambda>(k, v). (k, canonVal v)) m"

subsection \<open>The scenario of the specification\<close>

text \<open>
  The schema \<^verbatim>\<open>ecs\<close> defines \<^verbatim>\<open>event.outcome\<close> as a keyword; the local tree has
  the one node \<^verbatim>\<open>event\<close>, marked external, with the child \<^verbatim>\<open>outcome\<close> under
  \<^verbatim>\<open>fields\<close>.
\<close>

definition scenarioSchema :: "FieldDefinition list" where
  "scenarioSchema =
     [FieldDefinition ''event'' ''group'' '''' '''' None None []
        [FieldDefinition ''outcome'' ''keyword'' '''' '''' None None [] []]]"

definition scenarioManager :: "DependencyManager option" where
  "scenarioManager = Some \<lparr>schema = [''ecs'' \<mapsto> scenarioSchema]\<rparr>"

definition scenarioNode :: MapStr where
  "scenarioNode =
     [(''name'', VString ''event''), (''external'', VString ''ecs''), (''type'', VString ''group''),
      (''fields'', VList [VMap [(''name'', VString ''outcome'')]])]"

definition scenarioTree :: "MapStr list" where
  "scenarioTree = [scenarioNode]"

section \<open>Properties\<close>

lemma toMapStrs_empty: "(toMapStrs vs = Inr []) = (vs = [])"
  by (cases vs) (auto split: sum.splits)

lemma ToMapStrSlice_empty: "(ToMapStrSlice v = Inr []) = (v = VList [] \<or> v = VMapStrs [])"
  by (cases v) (auto simp: toMapStrs_empty)

text \<open>
  C3. A node is pruned exactly when its type is the string \<^verbatim>\<open>group\<close> and its
  \<^verbatim>\<open>fields\<close> attribute is absent (or nil), or is an empty sequence, whichever of the
  two sequence containers a node carries (the decoded \<^verbatim>\<open>[]interface{}\<close> or the
  \<^verbatim>\<open>[]common.MapStr\<close> that injection stores) holds it. These two are all the empty
  sequences of nodes there are: the values that convert to the empty slice of nodes.
\<close>

theorem skipField_iff:
  "skipField def =
     (fst (GetValue def ''type'') = VString ''group'' \<and>
      (fst (GetValue def ''fields'') = VNil \<or>
       fst (GetValue def ''fields'') = VList [] \<or>
       fst (GetValue def ''fields'') = VMapStrs [])) \<and>
   skipField def =
     (fst (GetValue def ''type'') = VString ''group'' \<and>
      (fst (GetValue def ''fields'') = VNil \<or>
       ToMapStrSlice (fst (GetValue def ''fields'')) = Inr []))"
  by (simp add: skipField_def Let_def ToMapStrSlice_empty split: val.splits)

subsection \<open>The loop, one node at a time\<close>

lemma loop_Cons:
  "injectFieldsLoop dm root (def # defs) updated changed =
     (case injectNode dm root def of
        NodePanics \<Rightarrow> Panics
      | NodeFails err \<Rightarrow> Returns ([], False, Some err)
      | NodeDone def' ch \<Rightarrow>
          injectFieldsLoop dm root defs (appendUnlessSkipped updated def') (ch \<or> changed))"
  by (simp add: injectNode_def Let_def split: outcome.splits sum.splits option.splits prod.splits)

lemmas loop_unfold = injectFieldsLoop.simps(2)

declare injectFieldsLoop.simps(2) [simp del]

lemma loop_error_shape:
  "injectFieldsLoop dm root defs updated changed = Returns (t, ch, Some e) \<Longrightarrow> t = [] \<and> ch = False"
  by (induction defs arbitrary: updated changed) (auto simp: loop_Cons split: nodeResult.splits)

lemma loop_no_panic:
  "wellNamedTree defs \<Longrightarrow> injectFieldsLoop dm root defs updated changed \<noteq> Panics"
proof (induction "treeSize defs" arbitrary: defs root updated changed rule: less_induct)
  case less
  show ?case
  proof (cases defs)
    case Nil
    then show ?thesis by simp
  next
    case (Cons d ds)
    from less.prems Cons obtain n where name: "fst (GetValue d ''name'') = VString n"
      by (auto simp: isString_def split: val.splits)
    from less.prems Cons have ext:
      "fst (GetValue d ''external'') = VNil \<or> (\<exists>s. fst (GetValue d ''external'') = VString s)"
      by (auto simp: isString_def split: val.splits)
    have kids: "injectFieldsLoop dm p ms [] False \<noteq> Panics"
      if "ToMapStrSlice (fst (GetValue d ''fields'')) = Inr ms" for p ms
    proof -
      from that have "treeSize ms < treeSize defs"
        unfolding Cons by (rule treeSize_fields)
      moreover from that less.prems Cons have "wellNamedTree ms" by simp
      ultimately show ?thesis by (rule less.hyps)
    qed
    have node: "injectNode dm root d \<noteq> NodePanics"
      using name ext kids
      by (auto simp: injectNode_def buildFieldPath_def assertString_def
               split: sum.splits outcome.splits option.splits)
    have tail: "injectFieldsLoop dm root ds u c \<noteq> Panics" for u c
    proof -
      have "treeSize ds < treeSize defs" unfolding Cons by (rule treeSize_tail)
      moreover from less.prems Cons have "wellNamedTree ds" by simp
      ultimately show ?thesis by (rule less.hyps)
    qed
    show ?thesis using node tail by (simp add: Cons loop_Cons split: nodeResult.splits)
  qed
qed

lemma loop_failure_propagates:
  "resolutionFails dm root defs \<Longrightarrow>
   injectFieldsLoop dm root defs updated changed = Returns (t, ch, e) \<Longrightarrow> e \<noteq> None"
proof (induction arbitrary: updated changed t ch e rule: resolutionFails.induct)
  case (import_fails root "def" fieldPath schemaName err defs)
  then show ?case
    by (auto simp: loop_Cons injectNode_def assertString_def)
next
  case (convert_fails "def" err root defs)
  then show ?case
    by (auto simp: loop_Cons injectNode_def split: outcome.splits)
next
  case (nested_fails root "def" fieldPath fieldsMs defs)
  from nested_fails.hyps(3) have nn: "fst (GetValue def ''fields'') \<noteq> VNil"
    by auto
  show ?case
  proof (cases "injectFieldsLoop dm fieldPath fieldsMs [] False")
    case Panics
    with nested_fails nn show ?thesis
      by (auto simp: loop_Cons injectNode_def)
  next
    case (Returns r)
    obtain t' c' e' where r: "r = (t', c', e')" by (cases r)
    with Returns nested_fails.IH have "e' \<noteq> None" by blast
    with Returns r nested_fails.hyps nested_fails.prems nn show ?thesis
      by (auto simp: loop_Cons injectNode_def)
  qed
next
  case (later_fails root defs "def")
  then show ?case
    by (auto simp: loop_Cons split: nodeResult.splits)
qed

lemmas eval_defs =
  InjectFields_def injectFieldsWithRoot_def loop_unfold buildFieldPath_def assertString_def
  GetValue_def ImportField_def FindElementDefinition_def mergeImported_def Delete_def Put_def
  appendUnlessSkipped_def skipField_def isString_def

text \<open>
  C5. Whenever a resolution fails in the tree (an external reference that cannot be
  imported, or a \<^verbatim>\<open>fields\<close> value that does not convert, at a node the walk visits),
  a call of \<^verbatim>\<open>InjectFields\<close> that returns returns an error; and whenever it returns an
  error, the tree it returns is nil and the changed flag is false, whatever had been
  merged before the failure.
\<close>

theorem InjectFields_no_partial_result:
  assumes "InjectFields dm defs = Returns (tree, changed, err)"
  shows "(resolutionFails dm '''' defs \<longrightarrow> err \<noteq> None) \<and>
         (err \<noteq> None \<longrightarrow> tree = [] \<and> changed = False)"
proof (intro conjI impI)
  assume "resolutionFails dm '''' defs"
  with assms show "err \<noteq> None"
    unfolding InjectFields_def injectFieldsWithRoot_def by (auto dest: loop_failure_propagates)
next
  assume "err \<noteq> None"
  then obtain e where "err = Some e" by auto
  with assms show "tree = []" "changed = False"
    unfolding InjectFields_def injectFieldsWithRoot_def by (auto dest: loop_error_shape)
qed

theorem InjectFields_no_partial_result_witness:
  "InjectFields None
     [[(''name'', VString ''a'')], [(''name'', VString ''b''), (''external'', VString ''ecs'')]]
   = Returns ([], False, Some (Wrap (ErrExternalFieldsNotAllowed ''b'') ''can't import field'')) \<and>
   resolutionFails None ''''
     [[(''name'', VString ''a'')], [(''name'', VString ''b''), (''external'', VString ''ecs'')]]"
proof -
  let ?defs = "[[(''name'', VString ''a'')], [(''name'', VString ''b''), (''external'', VString ''ecs'')]]"
  let ?err = "Wrap (ErrExternalFieldsNotAllowed ''b'') ''can't import field''"
  have run: "InjectFields None ?defs = Returns ([], False, Some ?err)"
    by (simp add: eval_defs)
  have "resolutionFails None '''' [[(''name'', VString ''b''), (''external'', VString ''ecs'')]]"
    by (rule import_fails [where fieldPath = "''b''" and schemaName = "''ecs''"])
       (simp_all add: eval_defs)
  then have fails: "resolutionFails None '''' ?defs"
    by (rule later_fails)
  from InjectFields_no_partial_result [OF run] run fails show ?thesis by simp
qed

text \<open>
  C10. On a tree in which every node, at every depth, has a string under \<^verbatim>\<open>name\<close>
  and, if it has a value under \<^verbatim>\<open>external\<close>, a string there, \<^verbatim>\<open>InjectFields\<close> does
  not panic. The precondition is what keeps the two unchecked type assertions from
  failing: a first node without a string name panics in \<^verbatim>\<open>buildFieldPath\<close>, and a
  first node with a name and an external value that is not a string panics at
  \<^verbatim>\<open>external.(string)\<close>.
\<close>

theorem InjectFields_total_on_named_trees:
  "(wellNamedTree defs \<longrightarrow> InjectFields dm defs \<noteq> Panics) \<and>
   (\<not> isString (fst (GetValue d ''name'')) \<longrightarrow> InjectFields dm (d # defs) = Panics) \<and>
   (isString (fst (GetValue d ''name'')) \<and> fst (GetValue d ''external'') \<noteq> VNil \<and>
    \<not> isString (fst (GetValue d ''external'')) \<longrightarrow> InjectFields dm (d # defs) = Panics)"
proof (intro conjI impI)
  assume "wellNamedTree defs"
  then show "InjectFields dm defs \<noteq> Panics"
    unfolding InjectFields_def injectFieldsWithRoot_def by (rule loop_no_panic)
next
  assume "\<not> isString (fst (GetValue d ''name''))"
  then show "InjectFields dm (d # defs) = Panics"
    by (simp add: InjectFields_def injectFieldsWithRoot_def loop_Cons injectNode_def
          buildFieldPath_def assertString_def isString_def split: val.splits)
next
  assume "isString (fst (GetValue d ''name'')) \<and> fst (GetValue d ''external'') \<noteq> VNil \<and>
          \<not> isString (fst (GetValue d ''external''))"
  then show "InjectFields dm (d # defs) = Panics"
    by (auto simp: InjectFields_def injectFieldsWithRoot_def loop_Cons injectNode_def
          buildFieldPath_def assertString_def isString_def split: val.splits)
qed

theorem InjectFields_total_on_named_trees_witness:
  "wellNamedTree
     [[(''name'', VString ''a''), (''type'', VString ''group''),
       (''fields'', VList [VMap [(''name'', VString ''b''), (''external'', VString ''ecs'')]])]] \<and>
   InjectFields None
     [[(''name'', VString ''a''), (''type'', VString ''group''),
       (''fields'', VList [VMap [(''name'', VString ''b''), (''external'', VString ''ecs'')]])]]
     \<noteq> Panics \<and>
   \<not> isString (fst (GetValue [(''type'', VString ''keyword'')] ''name'')) \<and>
   InjectFields None [[(''type'', VString ''keyword'')]] = Panics \<and>
   InjectFields None [[(''name'', VString ''a''), (''external'', VBool True)]] = Panics"
proof -
  let ?t = "[[(''name'', VString ''a''), (''type'', VString ''group''),
       (''fields'', VList [VMap [(''name'', VString ''b''), (''external'', VString ''ecs'')]])]]"
  have wf: "wellNamedTree ?t"
    by (simp add: isString_def GetValue_def)
  have n1: "\<not> isString (fst (GetValue [(''type'', VString ''keyword'')] ''name''))"
    by (simp add: isString_def GetValue_def)
  have n2: "isString (fst (GetValue [(''name'', VString ''a''), (''external'', VBool True)] ''name'')) \<and>
            fst (GetValue [(''name'', VString ''a''), (''external'', VBool True)] ''external'') \<noteq> VNil \<and>
            \<not> isString (fst (GetValue [(''name'', VString ''a''), (''external'', VBool True)] ''external''))"
    by (simp add: isString_def GetValue_def)
  from InjectFields_total_on_named_trees [where defs = ?t and dm = None]
       InjectFields_total_on_named_trees
         [where defs = "[]" and dm = None and d = "[(''type'', VString ''keyword'')]"]
       InjectFields_total_on_named_trees
         [where defs = "[]" and dm = None
            and d = "[(''name'', VString ''a''), (''external'', VBool True)]"]
       wf n1 n2
  show ?thesis by blast
qed

subsection \<open>Importing and merging\<close>

lemma map_of_DeepUpdate_miss:
  "map_of d k = None \<Longrightarrow> map_of (DeepUpdate m d) k = map_of m k"
  by (induction d) (auto simp: Let_def update_conv' split: if_splits)

lemma map_of_DeepUpdate_hit:
  "map_of d k = Some v \<Longrightarrow>
   (case v of
      VMap val \<Rightarrow> (\<exists>val'. map_of (DeepUpdate m d) k = Some (VMap val'))
    | _ \<Rightarrow> map_of (DeepUpdate m d) k = Some v)"
proof (induction d)
  case Nil
  then show ?case by simp
next
  case (Cons e d)
  obtain k' v' where e: "e = (k', v')" by (cases e)
  show ?case
  proof (cases "k' = k")
    case True
    with Cons.prems e have "v' = v" by simp
    with True e show ?thesis
      by (cases v) (auto simp: Let_def update_conv' split: option.splits val.splits)
  next
    case False
    with Cons e show ?thesis
      by (cases v) (auto simp: Let_def update_conv')
  qed
qed

lemma map_of_transform_type:
  "map_of (transformImportedField fd) ''type'' = Some (VString (Type fd))"
  by (cases fd) (simp add: Let_def update_conv' Put_def split: option.splits)

lemma mergeImported_type:
  "fst (GetValue (mergeImported imported def) ''type'') =
     (if Type imported = ''keyword'' \<and> fst (GetValue def ''type'') = VString ''constant_keyword''
      then VString ''constant_keyword''
      else VString (Type imported))"
proof -
  let ?t = "Delete (DeepUpdate (transformImportedField imported) def) ''external''"
  have look: "map_of ?t ''type'' = map_of (DeepUpdate (transformImportedField imported) def) ''type''"
    by (simp add: Delete_def delete_conv')
  show ?thesis
  proof (cases "map_of def ''type''")
    case None
    then show ?thesis
      by (auto simp: mergeImported_def Let_def GetValue_def look update_conv'
            map_of_DeepUpdate_miss map_of_transform_type)
  next
    case (Some v)
    then show ?thesis
      using map_of_DeepUpdate_hit [OF Some, of "transformImportedField imported"]
      by (cases v)
         (auto simp: mergeImported_def Let_def GetValue_def look update_conv')
  qed
qed

lemma loop_external:
  assumes "buildFieldPath root node = Returns fieldPath"
    and "fst (GetValue node ''external'') = VString schemaName"
    and "ImportField dm schemaName fieldPath = Inr imported"
  shows "injectFieldsLoop dm root (node # defs) updated changed =
           injectFieldsLoop dm root defs
             (appendUnlessSkipped updated (mergeImported imported node)) True"
  using assms by (simp add: loop_Cons injectNode_def assertString_def)

text \<open>
  C2. An external node that injection resolves is replaced by the merge of the imported
  definition with the node, and the type of the merge follows the override law: it is
  \<^verbatim>\<open>constant_keyword\<close> when the imported type is \<^verbatim>\<open>keyword\<close> and the node declares
  the type \<^verbatim>\<open>constant_keyword\<close>, and the imported type for every other pair, also
  when the node declares no type.
\<close>

theorem merged_type_law:
  "(buildFieldPath root node = Returns fieldPath \<and>
    fst (GetValue node ''external'') = VString schemaName \<and>
    ImportField dm schemaName fieldPath = Inr imported \<longrightarrow>
      injectFieldsLoop dm root (node # defs) updated changed =
        injectFieldsLoop dm root defs
          (appendUnlessSkipped updated (mergeImported imported node)) True) \<and>
   fst (GetValue (mergeImported imported node) ''type'') =
     (if Type imported = ''keyword'' \<and> fst (GetValue node ''type'') = VString ''constant_keyword''
      then VString ''constant_keyword''
      else VString (Type imported))"
  using loop_external [of root node fieldPath schemaName dm imported defs updated changed]
    mergeImported_type [of imported node]
  by blast

theorem merged_type_law_witness:
  "InjectFields
     (Some \<lparr>schema = [''ecs'' \<mapsto> [FieldDefinition ''outcome'' ''keyword'' '''' '''' None None [] []]]\<rparr>)
     [[(''name'', VString ''outcome''), (''external'', VString ''ecs''),
       (''type'', VString ''constant_keyword'')]]
   = Returns ([[(''name'', VString ''outcome''), (''type'', VString ''constant_keyword'')]], True, None) \<and>
   fst (GetValue
          (mergeImported (FieldDefinition ''outcome'' ''keyword'' '''' '''' None None [] [])
             [(''name'', VString ''outcome''), (''external'', VString ''ecs''),
              (''type'', VString ''constant_keyword'')]) ''type'')
   = VString ''constant_keyword''"
proof -
  let ?imp = "FieldDefinition ''outcome'' ''keyword'' '''' '''' None None [] []"
  let ?dm = "Some \<lparr>schema = [''ecs'' \<mapsto> [?imp]]\<rparr>"
  let ?d = "[(''name'', VString ''outcome''), (''external'', VString ''ecs''),
             (''type'', VString ''constant_keyword'')]"
  have h: "buildFieldPath '''' ?d = Returns ''outcome'' \<and>
           fst (GetValue ?d ''external'') = VString ''ecs'' \<and>
           ImportField ?dm ''ecs'' ''outcome'' = Inr ?imp"
    by (simp add: eval_defs)
  have m: "mergeImported ?imp ?d =
             [(''name'', VString ''outcome''), (''type'', VString ''constant_keyword'')]"
    by (simp add: eval_defs)
  from merged_type_law
         [where root = "''''" and node = ?d and fieldPath = "''outcome''"
            and schemaName = "''ecs''" and dm = ?dm and imported = ?imp and defs = "[]"
            and updated = "[]" and changed = False] h
  show ?thesis
    by (simp add: InjectFields_def injectFieldsWithRoot_def m appendUnlessSkipped_def
          skipField_def GetValue_def)
qed

lemma splitOn_nonempty: "splitOn c s \<noteq> []"
  by (induction s) (auto split: list.splits)

lemma findSegments_name:
  "findSegments segs defs = Some fd \<Longrightarrow> Name fd = last segs"
proof (induction segs arbitrary: defs)
  case Nil
  then show ?case by simp
next
  case (Cons seg rest)
  then show ?case
    by (auto simp: find_Some_iff split: option.splits if_splits)
qed

text \<open>
  C4. \<^verbatim>\<open>ImportField\<close> fails in exactly three ways, tried in this order: without a
  manager, with "external fields not allowed" for the path; with a manager that does not
  have the schema name, with "schema not defined"; with a schema in which the lookup of
  the path finds nothing, with "field definition not found" for the path. When the lookup
  finds a definition, that definition is returned as it is, and it bears the name of the
  last segment of the path.
\<close>

theorem ImportField_cases:
  "(dm = None \<longrightarrow>
      ImportField dm schemaName fieldPath = Inl (ErrExternalFieldsNotAllowed fieldPath)) \<and>
   (dm = Some m \<and> schema m schemaName = None \<longrightarrow>
      ImportField dm schemaName fieldPath = Inl (ErrSchemaNotDefined schemaName)) \<and>
   (dm = Some m \<and> schema m schemaName = Some sch \<and>
    FindElementDefinition fieldPath sch = None \<longrightarrow>
      ImportField dm schemaName fieldPath = Inl (ErrFieldDefinitionNotFound fieldPath)) \<and>
   (dm = Some m \<and> schema m schemaName = Some sch \<and>
    FindElementDefinition fieldPath sch = Some fd \<longrightarrow>
      ImportField dm schemaName fieldPath = Inr fd \<and>
      Name fd = last (splitOn CHR ''.'' fieldPath)) \<and>
   (ImportField dm schemaName fieldPath = Inl err \<longrightarrow>
      err = ErrExternalFieldsNotAllowed fieldPath \<or> err = ErrSchemaNotDefined schemaName \<or>
      err = ErrFieldDefinitionNotFound fieldPath)"
proof (intro conjI impI)
  assume "dm = None"
  then show "ImportField dm schemaName fieldPath = Inl (ErrExternalFieldsNotAllowed fieldPath)"
    by (simp add: ImportField_def)
next
  assume "dm = Some m \<and> schema m schemaName = None"
  then show "ImportField dm schemaName fieldPath = Inl (ErrSchemaNotDefined schemaName)"
    by (simp add: ImportField_def)
next
  assume "dm = Some m \<and> schema m schemaName = Some sch \<and>
          FindElementDefinition fieldPath sch = None"
  then show "ImportField dm schemaName fieldPath = Inl (ErrFieldDefinitionNotFound fieldPath)"
    by (simp add: ImportField_def)
next
  assume a: "dm = Some m \<and> schema m schemaName = Some sch \<and>
             FindElementDefinition fieldPath sch = Some fd"
  then show "ImportField dm schemaName fieldPath = Inr fd"
    by (simp add: ImportField_def)
  from a show "Name fd = last (splitOn CHR ''.'' fieldPath)"
    by (auto simp: FindElementDefinition_def dest: findSegments_name)
next
  assume "ImportField dm schemaName fieldPath = Inl err"
  then show "err = ErrExternalFieldsNotAllowed fieldPath \<or> err = ErrSchemaNotDefined schemaName \<or>
             err = ErrFieldDefinitionNotFound fieldPath"
    by (auto simp: ImportField_def split: option.splits)
qed

theorem ImportField_cases_witness:
  "ImportField None ''ecs'' ''event.outcome'' = Inl (ErrExternalFieldsNotAllowed ''event.outcome'') \<and>
   ImportField
     (Some \<lparr>schema = [''ecs'' \<mapsto> [FieldDefinition ''event'' ''group'' '''' '''' None None []
                                   [FieldDefinition ''outcome'' ''keyword'' '''' '''' None None [] []]]]\<rparr>)
     ''other'' ''event.outcome'' = Inl (ErrSchemaNotDefined ''other'') \<and>
   ImportField
     (Some \<lparr>schema = [''ecs'' \<mapsto> [FieldDefinition ''event'' ''group'' '''' '''' None None []
                                   [FieldDefinition ''outcome'' ''keyword'' '''' '''' None None [] []]]]\<rparr>)
     ''ecs'' ''event.kind'' = Inl (ErrFieldDefinitionNotFound ''event.kind'') \<and>
   ImportField
     (Some \<lparr>schema = [''ecs'' \<mapsto> [FieldDefinition ''event'' ''group'' '''' '''' None None []
                                   [FieldDefinition ''outcome'' ''keyword'' '''' '''' None None [] []]]]\<rparr>)
     ''ecs'' ''event.outcome'' = Inr (FieldDefinition ''outcome'' ''keyword'' '''' '''' None None [] [])"
proof -
  let ?out = "FieldDefinition ''outcome'' ''keyword'' '''' '''' None None [] []"
  let ?sch = "[FieldDefinition ''event'' ''group'' '''' '''' None None [] [?out]]"
  let ?m = "\<lparr>schema = [''ecs'' \<mapsto> ?sch]\<rparr>"
  have h2: "schema ?m ''other'' = None" by simp
  have h3: "schema ?m ''ecs'' = Some ?sch \<and> FindElementDefinition ''event.kind'' ?sch = None"
    by (simp add: FindElementDefinition_def)
  have h4: "schema ?m ''ecs'' = Some ?sch \<and> FindElementDefinition ''event.outcome'' ?sch = Some ?out"
    by (simp add: FindElementDefinition_def)
  have c1: "ImportField None ''ecs'' ''event.outcome'' =
              Inl (ErrExternalFieldsNotAllowed ''event.outcome'')"
    using ImportField_cases [where dm = None and schemaName = "''ecs''"
                               and fieldPath = "''event.outcome''"]
    by simp
  have c2: "ImportField (Some ?m) ''other'' ''event.outcome'' = Inl (ErrSchemaNotDefined ''other'')"
    using ImportField_cases [where dm = "Some ?m" and m = ?m and schemaName = "''other''"
                               and fieldPath = "''event.outcome''"] h2
    by simp
  have c3: "ImportField (Some ?m) ''ecs'' ''event.kind'' = Inl (ErrFieldDefinitionNotFound ''event.kind'')"
    using ImportField_cases [where dm = "Some ?m" and m = ?m and schemaName = "''ecs''"
                               and fieldPath = "''event.kind''" and sch = ?sch] h3
    by simp
  have c4: "ImportField (Some ?m) ''ecs'' ''event.outcome'' = Inr ?out"
    using ImportField_cases [where dm = "Some ?m" and m = ?m and schemaName = "''ecs''"
                               and fieldPath = "''event.outcome''" and sch = ?sch and fd = ?out] h4
    by simp
  from c1 c2 c3 c4 show ?thesis by (intro conjI)
qed

subsection \<open>Loading the schema\<close>

text \<open>
  C9. With an empty ECS reference in the manifest, \<^verbatim>\<open>CreateFieldDependencyManager\<close>
  succeeds without touching the cache or the network, and the manager it returns has the
  key \<^verbatim>\<open>ecs\<close> with no definitions. Importing any path from \<^verbatim>\<open>ecs\<close> then fails
  with "field definition not found" for that path, not with "schema not defined".
\<close>

theorem empty_reference_manager:
  assumes "Reference (ECS deps) = ''''"
  shows "CreateFieldDependencyManager pf deps w = (Inr \<lparr>schema = [''ecs'' \<mapsto> []]\<rparr>, w) \<and>
         ImportField (Some \<lparr>schema = [''ecs'' \<mapsto> []]\<rparr>) ''ecs'' p =
           Inl (ErrFieldDefinitionNotFound p)"
proof
  from assms show "CreateFieldDependencyManager pf deps w = (Inr \<lparr>schema = [''ecs'' \<mapsto> []]\<rparr>, w)"
    by (simp add: CreateFieldDependencyManager_def buildFieldsSchema_def loadECSFieldsSchema_def
          ecsSchemaName_def)
next
  obtain seg rest where "splitOn CHR ''.'' p = seg # rest"
    using splitOn_nonempty [of "CHR ''.''" p] by (cases "splitOn CHR ''.'' p") auto
  then show "ImportField (Some \<lparr>schema = [''ecs'' \<mapsto> []]\<rparr>) ''ecs'' p =
               Inl (ErrFieldDefinitionNotFound p)"
    by (simp add: ImportField_def FindElementDefinition_def)
qed

theorem empty_reference_manager_witness:
  "Reference (ECS \<lparr>ECS = \<lparr>Reference = ''''\<rparr>\<rparr>) = '''' \<and>
   fst (CreateFieldDependencyManager
          \<lparr>fieldsCacheDir = None, httpGet = (\<lambda>url. TransportError),
           mkdirAllFails = (\<lambda>path. True), writeFileFails = (\<lambda>path. True),
           yamlUnmarshal = (\<lambda>content. None)\<rparr>
          \<lparr>ECS = \<lparr>Reference = ''''\<rparr>\<rparr>
          \<lparr>fs = (\<lambda>path. NotExist), effects = []\<rparr>)
     = Inr \<lparr>schema = [''ecs'' \<mapsto> []]\<rparr> \<and>
   ImportField (Some \<lparr>schema = [''ecs'' \<mapsto> []]\<rparr>) ''ecs'' ''event.outcome'' =
     Inl (ErrFieldDefinitionNotFound ''event.outcome'')"
proof -
  have h: "Reference (ECS \<lparr>ECS = \<lparr>Reference = ''''\<rparr>\<rparr>) = ''''" by simp
  from empty_reference_manager [OF h] h show ?thesis by simp
qed

lemma read_bad_reference:
  assumes "\<not> HasPrefix (Reference dep) gitReferencePrefix"
  shows "readECSFieldsSchemaFile pf dep w =
           (Inl (Wrap ErrInvalidGitReference ''can't process the value as Git reference''), w)"
  using assms by (simp add: readECSFieldsSchemaFile_def asGitReference_def)

text \<open>
  C8. For every reference that does not start with \<^verbatim>\<open>git@\<close>, reading the schema file
  fails with the invalid-reference error, and the world is returned as it was: nothing
  has been read from the cache, fetched, or written. The loader and the constructor of
  the manager pass the failure on, for every such reference they hand to the reader,
  that is every one but the empty reference.
\<close>

theorem invalid_reference_fails_first:
  assumes "\<not> HasPrefix (Reference dep) gitReferencePrefix"
  shows "readECSFieldsSchemaFile pf dep w =
           (Inl (Wrap ErrInvalidGitReference ''can't process the value as Git reference''), w) \<and>
         (Reference dep \<noteq> '''' \<longrightarrow>
            loadECSFieldsSchema pf dep w =
              (Inl (Wrap (Wrap ErrInvalidGitReference ''can't process the value as Git reference'')
                      ''error reading ECS fields schema file''), w) \<and>
            CreateFieldDependencyManager pf \<lparr>ECS = dep\<rparr> w =
              (Inl (Wrap (Wrap (Wrap (Wrap ErrInvalidGitReference
                      ''can't process the value as Git reference'')
                      ''error reading ECS fields schema file'')
                      ''can't load fields'') ''can't build fields schema''), w))"
  using read_bad_reference [OF assms, of pf w]
  by (simp add: loadECSFieldsSchema_def buildFieldsSchema_def CreateFieldDependencyManager_def)

theorem invalid_reference_fails_first_witness:
  "\<not> HasPrefix (Reference \<lparr>Reference = ''v8.0.0''\<rparr>) gitReferencePrefix \<and>
   CreateFieldDependencyManager
     \<lparr>fieldsCacheDir = Some ''/cache'', httpGet = (\<lambda>url. Response 200 (Some ''[]'')),
      mkdirAllFails = (\<lambda>path. False), writeFileFails = (\<lambda>path. False),
      yamlUnmarshal = (\<lambda>content. Some [])\<rparr>
     \<lparr>ECS = \<lparr>Reference = ''v8.0.0''\<rparr>\<rparr>
     \<lparr>fs = (\<lambda>path. NotExist), effects = []\<rparr>
   = (Inl (Wrap (Wrap (Wrap (Wrap ErrInvalidGitReference
              ''can't process the value as Git reference'')
              ''error reading ECS fields schema file'')
              ''can't load fields'') ''can't build fields schema''),
      \<lparr>fs = (\<lambda>path. NotExist), effects = []\<rparr>)"
proof -
  have h: "\<not> HasPrefix (Reference \<lparr>Reference = ''v8.0.0''\<rparr>) gitReferencePrefix"
    by (simp add: HasPrefix_def gitReferencePrefix_def)
  from invalid_reference_fails_first [OF h] h show ?thesis by simp
qed

lemma read_hit:
  assumes "asGitReference (Reference dep) = Inr ref" and "fieldsCacheDir pf = Some dir"
    and "fs w (cachedSchemaPathOf dir ref) = Content bytes"
  shows "readECSFieldsSchemaFile pf dep w =
           (Inr bytes, perform (ReadFile (cachedSchemaPathOf dir ref)) w)"
  using assms by (simp add: readECSFieldsSchemaFile_def Let_def perform_def)

lemma read_miss_fetches:
  assumes "asGitReference (Reference dep) = Inr ref" and "fieldsCacheDir pf = Some dir"
    and "fs w (cachedSchemaPathOf dir ref) = NotExist"
  shows "fetches (snd (readECSFieldsSchemaFile pf dep w)) = fetches w + 1"
  using assms
  by (simp add: readECSFieldsSchemaFile_def Let_def perform_def fetches_def isHttpGet_def
        split: response.splits option.splits)

lemma read_miss_writes:
  assumes "asGitReference (Reference dep) = Inr ref" and "fieldsCacheDir pf = Some dir"
    and "fs w (cachedSchemaPathOf dir ref) = NotExist"
    and "fst (readECSFieldsSchemaFile pf dep w) = Inr content"
  shows "cacheWrites (snd (readECSFieldsSchemaFile pf dep w)) = cacheWrites w + 1 \<and>
         fs (snd (readECSFieldsSchemaFile pf dep w)) (cachedSchemaPathOf dir ref) = Content content"
  using assms
  by (simp add: readECSFieldsSchemaFile_def Let_def perform_def cacheWrites_def isWriteFile_def
        split: response.splits option.splits if_splits)

lemma read_miss_ok:
  assumes "asGitReference (Reference dep) = Inr ref" and "fieldsCacheDir pf = Some dir"
    and "fs w (cachedSchemaPathOf dir ref) = NotExist"
    and "httpGet pf (ecsSchemaURL ref ecsSchemaFile) = Response 200 (Some body)"
    and "\<not> mkdirAllFails pf (filepathDir (cachedSchemaPathOf dir ref))"
    and "\<not> writeFileFails pf (cachedSchemaPathOf dir ref)"
  shows "fst (readECSFieldsSchemaFile pf dep w) = Inr body"
  using assms by (simp add: readECSFieldsSchemaFile_def Let_def perform_def)

lemma read_miss_status:
  assumes "asGitReference (Reference dep) = Inr ref" and "fieldsCacheDir pf = Some dir"
    and "fs w (cachedSchemaPathOf dir ref) = NotExist"
    and "httpGet pf (ecsSchemaURL ref ecsSchemaFile) = Response statusCode body"
    and "statusCode \<noteq> 200"
  shows "fst (readECSFieldsSchemaFile pf dep w) =
           Inl (if statusCode = 404 then ErrUnsatisfiedDependency (ecsSchemaURL ref ecsSchemaFile)
                else ErrUnexpectedStatus statusCode)"
  using assms by (simp add: readECSFieldsSchemaFile_def Let_def perform_def)

text \<open>
  C6. With a reference that carries the prefix and a cache directory at hand: when the
  cache file exists and is readable, the reader returns its bytes after the one read of
  the file, with no fetch and no write. When the file does not exist, the reader fetches
  exactly once; if it returns content, it has written the cache exactly once and the
  cache file now holds that content, and it does return the body when the response is
  200, the body is read and the directory and the file can be written. A 404 response
  fails with the unsatisfied-dependency error, and every status other than 200 and 404
  with the unexpected-status error.
\<close>

theorem schema_file_cache:
  assumes "asGitReference (Reference dep) = Inr ref" and "fieldsCacheDir pf = Some dir"
  shows
    "(fs w (cachedSchemaPathOf dir ref) = Content bytes \<longrightarrow>
        readECSFieldsSchemaFile pf dep w =
          (Inr bytes, perform (ReadFile (cachedSchemaPathOf dir ref)) w) \<and>
        fetches (snd (readECSFieldsSchemaFile pf dep w)) = fetches w \<and>
        cacheWrites (snd (readECSFieldsSchemaFile pf dep w)) = cacheWrites w) \<and>
     (fs w (cachedSchemaPathOf dir ref) = NotExist \<longrightarrow>
        fetches (snd (readECSFieldsSchemaFile pf dep w)) = fetches w + 1) \<and>
     (fs w (cachedSchemaPathOf dir ref) = NotExist \<and>
      fst (readECSFieldsSchemaFile pf dep w) = Inr content \<longrightarrow>
        cacheWrites (snd (readECSFieldsSchemaFile pf dep w)) = cacheWrites w + 1 \<and>
        fs (snd (readECSFieldsSchemaFile pf dep w)) (cachedSchemaPathOf dir ref) = Content content) \<and>
     (fs w (cachedSchemaPathOf dir ref) = NotExist \<and>
      httpGet pf (ecsSchemaURL ref ecsSchemaFile) = Response 200 (Some body) \<and>
      \<not> mkdirAllFails pf (filepathDir (cachedSchemaPathOf dir ref)) \<and>
      \<not> writeFileFails pf (cachedSchemaPathOf dir ref) \<longrightarrow>
        fst (readECSFieldsSchemaFile pf dep w) = Inr body) \<and>
     (fs w (cachedSchemaPathOf dir ref) = NotExist \<and>
      httpGet pf (ecsSchemaURL ref ecsSchemaFile) = Response 404 respBody \<longrightarrow>
        fst (readECSFieldsSchemaFile pf dep w) =
          Inl (ErrUnsatisfiedDependency (ecsSchemaURL ref ecsSchemaFile))) \<and>
     (fs w (cachedSchemaPathOf dir ref) = NotExist \<and>
      httpGet pf (ecsSchemaURL ref ecsSchemaFile) = Response statusCode respBody \<and>
      statusCode \<noteq> 200 \<and> statusCode \<noteq> 404 \<longrightarrow>
        fst (readECSFieldsSchemaFile pf dep w) = Inl (ErrUnexpectedStatus statusCode))"
proof (intro conjI impI)
  assume hit: "fs w (cachedSchemaPathOf dir ref) = Content bytes"
  from read_hit [OF assms hit]
  show "readECSFieldsSchemaFile pf dep w =
          (Inr bytes, perform (ReadFile (cachedSchemaPathOf dir ref)) w)" .
  then show "fetches (snd (readECSFieldsSchemaFile pf dep w)) = fetches w"
    by (simp add: perform_def fetches_def isHttpGet_def)
  from read_hit [OF assms hit]
  show "cacheWrites (snd (readECSFieldsSchemaFile pf dep w)) = cacheWrites w"
    by (simp add: perform_def cacheWrites_def isWriteFile_def)
next
  assume "fs w (cachedSchemaPathOf dir ref) = NotExist"
  with assms show "fetches (snd (readECSFieldsSchemaFile pf dep w)) = fetches w + 1"
    by (rule read_miss_fetches)
next
  assume a: "fs w (cachedSchemaPathOf dir ref) = NotExist \<and>
          fst (readECSFieldsSchemaFile pf dep w) = Inr content"
  with read_miss_writes [OF assms, of w content]
  show "cacheWrites (snd (readECSFieldsSchemaFile pf dep w)) = cacheWrites w + 1"
    and "fs (snd (readECSFieldsSchemaFile pf dep w)) (cachedSchemaPathOf dir ref) = Content content"
    by simp_all
next
  assume "fs w (cachedSchemaPathOf dir ref) = NotExist \<and>
      httpGet pf (ecsSchemaURL ref ecsSchemaFile) = Response 200 (Some body) \<and>
      \<not> mkdirAllFails pf (filepathDir (cachedSchemaPathOf dir ref)) \<and>
      \<not> writeFileFails pf (cachedSchemaPathOf dir ref)"
  with read_miss_ok [OF assms, of w body]
  show "fst (readECSFieldsSchemaFile pf dep w) = Inr body" by simp
next
  assume "fs w (cachedSchemaPathOf dir ref) = NotExist \<and>
      httpGet pf (ecsSchemaURL ref ecsSchemaFile) = Response 404 respBody"
  with read_miss_status [OF assms, of w 404 respBody]
  show "fst (readECSFieldsSchemaFile pf dep w) =
          Inl (ErrUnsatisfiedDependency (ecsSchemaURL ref ecsSchemaFile))" by simp
next
  assume "fs w (cachedSchemaPathOf dir ref) = NotExist \<and>
      httpGet pf (ecsSchemaURL ref ecsSchemaFile) = Response statusCode respBody \<and>
      statusCode \<noteq> 200 \<and> statusCode \<noteq> 404"
  with read_miss_status [OF assms, of w statusCode respBody]
  show "fst (readECSFieldsSchemaFile pf dep w) = Inl (ErrUnexpectedStatus statusCode)" by simp
qed

theorem schema_file_cache_witness:
  "fst (readECSFieldsSchemaFile (examplePlatform 200) \<lparr>Reference = ''git@v8.0.0''\<rparr> emptyWorld)
     = Inr ''[]'' \<and>
   fetches (snd (readECSFieldsSchemaFile (examplePlatform 200) \<lparr>Reference = ''git@v8.0.0''\<rparr> emptyWorld))
     = 1 \<and>
   cacheWrites (snd (readECSFieldsSchemaFile (examplePlatform 200) \<lparr>Reference = ''git@v8.0.0''\<rparr> emptyWorld))
     = 1 \<and>
   fetches (snd (readECSFieldsSchemaFile (examplePlatform 200) \<lparr>Reference = ''git@v8.0.0''\<rparr>
      (snd (readECSFieldsSchemaFile (examplePlatform 200) \<lparr>Reference = ''git@v8.0.0''\<rparr> emptyWorld))))
     = 1 \<and>
   fst (readECSFieldsSchemaFile (examplePlatform 404) \<lparr>Reference = ''git@v8.0.0''\<rparr> emptyWorld)
     = Inl (ErrUnsatisfiedDependency
              ''https://raw.githubusercontent.com/elastic/ecs/v8.0.0/generated/ecs/ecs_nested.yml'') \<and>
   fst (readECSFieldsSchemaFile (examplePlatform 500) \<lparr>Reference = ''git@v8.0.0''\<rparr> emptyWorld)
     = Inl (ErrUnexpectedStatus 500)"
proof -
  let ?dep = "\<lparr>Reference = ''git@v8.0.0''\<rparr>"
  let ?path = "cachedSchemaPathOf ''/cache'' ''v8.0.0''"
  let ?url = "ecsSchemaURL ''v8.0.0'' ecsSchemaFile"
  let ?w1 = "snd (readECSFieldsSchemaFile (examplePlatform 200) ?dep emptyWorld)"
  have ref: "asGitReference (Reference ?dep) = Inr ''v8.0.0''"
    by (simp add: asGitReference_def HasPrefix_def gitReferencePrefix_def)
  have dir: "fieldsCacheDir (examplePlatform c) = Some ''/cache''" for c
    by (simp add: examplePlatform_def)
  have miss: "fs emptyWorld ?path = NotExist"
    by (simp add: emptyWorld_def)
  have get: "httpGet (examplePlatform c) ?url = Response c (Some ''[]'')" for c
    by (simp add: examplePlatform_def)
  have ok: "\<not> mkdirAllFails (examplePlatform 200) (filepathDir ?path) \<and>
            \<not> writeFileFails (examplePlatform 200) ?path"
    by (simp add: examplePlatform_def)
  have url: "?url = ''https://raw.githubusercontent.com/elastic/ecs/v8.0.0/generated/ecs/ecs_nested.yml''"
    by (simp add: ecsSchemaURL_def ecsSchemaFile_def)
  have zero: "fetches emptyWorld = 0 \<and> cacheWrites emptyWorld = 0"
    by (simp add: fetches_def cacheWrites_def emptyWorld_def)
  note T200 = schema_file_cache [OF ref dir [of 200]]
  note T404 = schema_file_cache [OF ref dir [of 404]]
  note T500 = schema_file_cache [OF ref dir [of 500]]
  have r1: "fst (readECSFieldsSchemaFile (examplePlatform 200) ?dep emptyWorld) = Inr ''[]''"
    using T200 [where w = emptyWorld and body = "''[]''"] miss get [of 200] ok by simp
  have f1: "fetches ?w1 = 1"
    using T200 [where w = emptyWorld] miss zero by simp
  have w1: "cacheWrites ?w1 = 1 \<and> fs ?w1 ?path = Content ''[]''"
    using T200 [where w = emptyWorld and content = "''[]''"] miss r1 zero by simp
  have f2: "fetches (snd (readECSFieldsSchemaFile (examplePlatform 200) ?dep ?w1)) = 1"
    using T200 [where w = ?w1 and bytes = "''[]''"] w1 f1
    by (simp add: perform_def fetches_def isHttpGet_def)
  have r404: "fst (readECSFieldsSchemaFile (examplePlatform 404) ?dep emptyWorld)
                = Inl (ErrUnsatisfiedDependency ?url)"
    using T404 [where w = emptyWorld and respBody = "Some ''[]''"] miss get [of 404] by simp
  have r500: "fst (readECSFieldsSchemaFile (examplePlatform 500) ?dep emptyWorld)
                = Inl (ErrUnexpectedStatus 500)"
    using T500 [where w = emptyWorld and respBody = "Some ''[]''" and statusCode = 500]
      miss get [of 500] by simp
  from r1 f1 w1 f2 r404 r500 url show ?thesis by simp
qed

subsection \<open>The scenario\<close>

lemma mergeImported_external: "map_of (mergeImported imported d) ''external'' = None"
  by (simp add: mergeImported_def Let_def Delete_def update_conv' delete_conv')

lemma mergeImported_other:
  "k \<noteq> ''type'' \<Longrightarrow> k \<noteq> ''external'' \<Longrightarrow>
   map_of (mergeImported imported d) k = map_of (DeepUpdate (transformImportedField imported) d) k"
  by (simp add: mergeImported_def Let_def Delete_def update_conv' delete_conv')

lemma scenario_merge:
  "fst (GetValue (mergeImported imported scenarioNode) ''external'') = VNil \<and>
   fst (GetValue (mergeImported imported scenarioNode) ''name'') = VString ''event'' \<and>
   fst (GetValue (mergeImported imported scenarioNode) ''type'') = VString (Type imported) \<and>
   fst (GetValue (mergeImported imported scenarioNode) ''fields'') =
     VList [VMap [(''name'', VString ''outcome'')]]"
proof -
  let ?m = "transformImportedField imported"
  have n: "map_of (DeepUpdate ?m scenarioNode) ''name'' = Some (VString ''event'')"
    using map_of_DeepUpdate_hit [of scenarioNode "''name''" "VString ''event''" ?m]
    by (simp add: scenarioNode_def)
  have f: "map_of (DeepUpdate ?m scenarioNode) ''fields'' =
             Some (VList [VMap [(''name'', VString ''outcome'')]])"
    using map_of_DeepUpdate_hit [of scenarioNode "''fields''" "VList [VMap [(''name'', VString ''outcome'')]]" ?m]
    by (simp add: scenarioNode_def)
  have t: "fst (GetValue scenarioNode ''type'') = VString ''group''"
    by (simp add: scenarioNode_def GetValue_def)
  show ?thesis
    using n f t mergeImported_type [of imported scenarioNode]
    by (simp add: GetValue_def mergeImported_external mergeImported_other)
qed

text \<open>
  C1, as stated, fails. Injecting the scenario tree returns the \<^verbatim>\<open>event\<close> node
  without its external marker and with the changed flag set, but its \<^verbatim>\<open>fields\<close> are
  what they were: the child is still \<^verbatim>\<open>{name: outcome}\<close>, in neither container the
  keyword definition of \<^verbatim>\<open>event.outcome\<close>. The branch that merges an external node
  is the alternative to the branch that recurses into \<^verbatim>\<open>fields\<close>.
\<close>

theorem scenario_fields_untouched_counterexample:
  "InjectFields scenarioManager scenarioTree =
     Returns
       ([[(''name'', VString ''event''), (''type'', VString ''group''),
          (''multi_fields'', VMapStrs [[(''name'', VString ''outcome''), (''type'', VString ''keyword'')]]),
          (''fields'', VList [VMap [(''name'', VString ''outcome'')]])]],
        True, None) \<and>
   VList [VMap [(''name'', VString ''outcome'')]] \<noteq>
     VList [VMap [(''name'', VString ''outcome''), (''type'', VString ''keyword'')]] \<and>
   VList [VMap [(''name'', VString ''outcome'')]] \<noteq>
     VMapStrs [[(''name'', VString ''outcome''), (''type'', VString ''keyword'')]]"
  by (simp add: eval_defs scenarioManager_def scenarioSchema_def scenarioTree_def scenarioNode_def)

text \<open>
  C1, amended. Injecting the scenario tree against a manager that resolves the path
  \<^verbatim>\<open>event\<close> in \<^verbatim>\<open>ecs\<close> returns the one node \<^verbatim>\<open>event\<close>, merged with the
  imported definition: it has no external marker, its name, the imported type, and its
  \<^verbatim>\<open>fields\<close> as written in the local tree, the child \<^verbatim>\<open>{name: outcome}\<close> not
  injected; the changed flag is true. When the path cannot be imported the call returns
  the import error and no tree.
\<close>

theorem scenario_injection:
  "(ImportField dm ''ecs'' ''event'' = Inr imported \<longrightarrow>
      InjectFields dm scenarioTree =
        Returns ([mergeImported imported scenarioNode], True, None) \<and>
      fst (GetValue (mergeImported imported scenarioNode) ''external'') = VNil \<and>
      fst (GetValue (mergeImported imported scenarioNode) ''name'') = VString ''event'' \<and>
      fst (GetValue (mergeImported imported scenarioNode) ''type'') = VString (Type imported) \<and>
      fst (GetValue (mergeImported imported scenarioNode) ''fields'') =
        VList [VMap [(''name'', VString ''outcome'')]]) \<and>
   (ImportField dm ''ecs'' ''event'' = Inl err \<longrightarrow>
      InjectFields dm scenarioTree = Returns ([], False, Some (Wrap err ''can't import field'')))"
proof (intro conjI impI)
  have path: "buildFieldPath '''' scenarioNode = Returns ''event''"
    by (simp add: buildFieldPath_def assertString_def GetValue_def scenarioNode_def)
  have ext: "fst (GetValue scenarioNode ''external'') = VString ''ecs''"
    by (simp add: GetValue_def scenarioNode_def)
  {
    assume imp: "ImportField dm ''ecs'' ''event'' = Inr imported"
    from scenario_merge [of imported]
    have "\<not> skipField (mergeImported imported scenarioNode)"
      by (simp add: skipField_def)
    with loop_external [OF path ext imp, of "[]" "[]" False]
    show "InjectFields dm scenarioTree = Returns ([mergeImported imported scenarioNode], True, None)"
      by (simp add: InjectFields_def injectFieldsWithRoot_def scenarioTree_def appendUnlessSkipped_def)
  }
  {
    assume "ImportField dm ''ecs'' ''event'' = Inl err"
    with path ext
    show "InjectFields dm scenarioTree = Returns ([], False, Some (Wrap err ''can't import field''))"
      by (simp add: InjectFields_def injectFieldsWithRoot_def scenarioTree_def loop_Cons
            injectNode_def assertString_def)
  }
  from scenario_merge [of imported]
  show "fst (GetValue (mergeImported imported scenarioNode) ''external'') = VNil"
    and "fst (GetValue (mergeImported imported scenarioNode) ''name'') = VString ''event''"
    and "fst (GetValue (mergeImported imported scenarioNode) ''type'') = VString (Type imported)"
    and "fst (GetValue (mergeImported imported scenarioNode) ''fields'') =
           VList [VMap [(''name'', VString ''outcome'')]]"
    by simp_all
qed

theorem scenario_injection_witness:
  "ImportField scenarioManager ''ecs'' ''event'' = Inr (hd scenarioSchema) \<and>
   InjectFields scenarioManager scenarioTree =
     Returns ([mergeImported (hd scenarioSchema) scenarioNode], True, None) \<and>
   fst (GetValue (mergeImported (hd scenarioSchema) scenarioNode) ''fields'') =
     VList [VMap [(''name'', VString ''outcome'')]] \<and>
   ImportField None ''ecs'' ''event'' = Inl (ErrExternalFieldsNotAllowed ''event'') \<and>
   InjectFields None scenarioTree =
     Returns ([], False, Some (Wrap (ErrExternalFieldsNotAllowed ''event'') ''can't import field''))"
proof -
  have h1: "ImportField scenarioManager ''ecs'' ''event'' = Inr (hd scenarioSchema)"
    by (simp add: ImportField_def scenarioManager_def scenarioSchema_def FindElementDefinition_def)
  have h2: "ImportField None ''ecs'' ''event'' = Inl (ErrExternalFieldsNotAllowed ''event'')"
    by (simp add: ImportField_def)
  from scenario_injection [where dm = scenarioManager and imported = "hd scenarioSchema"]
       scenario_injection [where dm = None and err = "ErrExternalFieldsNotAllowed ''event''"]
       h1 h2
  show ?thesis by simp
qed

subsection \<open>Injecting a tree without external markers\<close>

lemma canon_toMapStrs:
  "toMapStrs vs = Inr ms \<Longrightarrow> map canonVal vs = map (\<lambda>m. VMap (canonMap m)) ms"
proof (induction vs arbitrary: ms)
  case Nil
  then show ?case by simp
next
  case (Cons v vs)
  then show ?case
    by (cases v) (auto split: sum.splits)
qed

lemma canon_ToMapStrSlice:
  "ToMapStrSlice v = Inr ms \<Longrightarrow> canonVal v = canonVal (VMapStrs ms)"
  by (cases v) (auto dest: canon_toMapStrs)

lemma canon_update:
  "map_of d k = Some v \<Longrightarrow> canonVal v' = canonVal v \<Longrightarrow>
   canonMap (AList.update k v' d) = canonMap d"
  by (induction d) (auto split: if_splits)

lemma length_toMapStrs: "toMapStrs vs = Inr ms \<Longrightarrow> length ms = length vs"
proof (induction vs arbitrary: ms)
  case Nil
  then show ?case by simp
next
  case (Cons v vs)
  then show ?case by (auto split: sum.splits)
qed

lemma sameTree_length: "sameTree a b \<Longrightarrow> length a = length b"
  unfolding sameTree_def by (auto dest: map_eq_imp_length_eq)

lemma skipField_Put:
  assumes "\<not> skipField d" and "fst (GetValue d ''fields'') \<noteq> VNil"
    and "ToMapStrSlice (fst (GetValue d ''fields'')) = Inr ms" and "sameTree out ms"
  shows "\<not> skipField (Put d ''fields'' (VMapStrs out))"
proof -
  from assms(4) have len: "length out = length ms" by (rule sameTree_length)
  have ty: "fst (GetValue (Put d ''fields'' (VMapStrs out)) ''type'') = fst (GetValue d ''type'')"
    by (simp add: GetValue_def Put_def update_conv')
  have fl: "fst (GetValue (Put d ''fields'' (VMapStrs out)) ''fields'') = VMapStrs out"
    by (simp add: GetValue_def Put_def update_conv')
  show ?thesis
  proof (cases "fst (GetValue d ''type'') = VString ''group''")
    case False
    then show ?thesis by (simp add: skipField_def ty)
  next
    case True
    with assms(1,2) have ne: "fst (GetValue d ''fields'') \<noteq> VList [] \<and>
        fst (GetValue d ''fields'') \<noteq> VMapStrs []"
      by (auto simp: skipField_def Let_def)
    with assms(3) have "ms \<noteq> []"
      by (cases "fst (GetValue d ''fields'')") (auto dest: length_toMapStrs)
    with len have "out \<noteq> []" by auto
    then show ?thesis by (simp add: skipField_def ty fl)
  qed
qed

lemma loop_stable:
  "stableTree defs \<Longrightarrow>
   \<exists>out. injectFieldsLoop dm root defs updated changed = Returns (updated @ out, changed, None) \<and>
         sameTree out defs"
proof (induction "treeSize defs" arbitrary: defs root updated changed rule: less_induct)
  case less
  show ?case
  proof (cases defs)
    case Nil
    then show ?thesis by (simp add: sameTree_def)
  next
    case (Cons d ds)
    from less.prems Cons obtain n where name: "fst (GetValue d ''name'') = VString n"
      by (auto simp: isString_def split: val.splits)
    from less.prems Cons have ext: "fst (GetValue d ''external'') = VNil" by simp
    from less.prems Cons have noskip: "\<not> skipField d" by (auto split: if_splits)
    from less.prems Cons have st_tail: "stableTree ds" by simp
    have node: "\<exists>d'. injectNode dm root d = NodeDone d' False \<and> \<not> skipField d' \<and>
                     canonMap d' = canonMap d"
    proof (cases "fst (GetValue d ''fields'') = VNil")
      case True
      with name ext noskip show ?thesis
        by (simp add: injectNode_def buildFieldPath_def assertString_def)
    next
      case False
      with less.prems Cons noskip obtain ms where
        conv: "ToMapStrSlice (fst (GetValue d ''fields'')) = Inr ms" and st: "stableTree ms"
        by (auto split: sum.splits)
      from conv have "treeSize ms < treeSize defs"
        unfolding Cons by (rule treeSize_fields)
      from less.hyps [OF this st, where root = "(if root \<noteq> '''' then root @ ''.'' else root) @ n"
                       and updated = "[]" and changed = False]
      obtain out where
        run: "injectFieldsLoop dm ((if root \<noteq> '''' then root @ ''.'' else root) @ n) ms [] False =
                Returns (out, False, None)"
        and same: "sameTree out ms"
        by auto
      from False obtain v where v: "map_of d ''fields'' = Some v" and fv: "fst (GetValue d ''fields'') = v"
        by (auto simp: GetValue_def split: option.splits)
      from conv fv same have "canonVal (VMapStrs out) = canonVal v"
        by (simp add: sameTree_def canon_ToMapStrSlice)
      with v have cm: "canonMap (Put d ''fields'' (VMapStrs out)) = canonMap d"
        unfolding Put_def by (rule canon_update)
      from noskip False conv same have "\<not> skipField (Put d ''fields'' (VMapStrs out))"
        by (rule skipField_Put)
      with name ext False conv run cm show ?thesis
        by (simp add: injectNode_def buildFieldPath_def assertString_def)
    qed
    then obtain d' where d': "injectNode dm root d = NodeDone d' False" "\<not> skipField d'"
      "canonMap d' = canonMap d" by auto
    have "treeSize ds < treeSize defs" unfolding Cons by (rule treeSize_tail)
    from less.hyps [OF this st_tail, where root = root and updated = "updated @ [d']"
                       and changed = changed]
    obtain out where
      run: "injectFieldsLoop dm root ds (updated @ [d']) changed =
              Returns ((updated @ [d']) @ out, changed, None)"
      and same: "sameTree out ds"
      by auto
    from d' run have "injectFieldsLoop dm root defs updated changed =
        Returns (updated @ (d' # out), changed, None)"
      by (simp add: Cons loop_Cons appendUnlessSkipped_def)
    moreover from d'(3) same have "sameTree (d' # out) defs"
      by (simp add: sameTree_def Cons)
    ultimately show ?thesis by blast
  qed
qed

lemma stable_noExternal: "stableTree defs \<Longrightarrow> noExternalMarkers defs"
  by (induction defs rule: stableTree.induct) (auto split: sum.splits if_splits)

text \<open>
  C7, as stated, fails. A tree without any external marker may contain an empty group;
  injection prunes it, so the tree returned is not the input.
\<close>

theorem empty_group_pruned_counterexample:
  "noExternalMarkers [[(''name'', VString ''g''), (''type'', VString ''group'')]] \<and>
   InjectFields None [[(''name'', VString ''g''), (''type'', VString ''group'')]] =
     Returns ([], False, None) \<and>
   \<not> sameTree [] [[(''name'', VString ''g''), (''type'', VString ''group'')]]"
  by (simp add: eval_defs sameTree_def)

text \<open>
  C7, amended. On a tree in which every node, at every depth, has a string name, no
  external marker, is not an empty group and has under \<^verbatim>\<open>fields\<close> nothing or a
  sequence of nodes, \<^verbatim>\<open>InjectFields\<close> returns without error, with the changed flag
  false and with the same tree, the \<^verbatim>\<open>fields\<close> sequences being returned as
  \<^verbatim>\<open>[]common.MapStr\<close>.
\<close>

theorem InjectFields_idempotent_on_stable_trees:
  assumes "stableTree defs"
  shows "noExternalMarkers defs \<and>
         (\<exists>out. InjectFields dm defs = Returns (out, False, None) \<and> sameTree out defs)"
  using loop_stable [OF assms, of dm "''''" "[]" False] stable_noExternal [OF assms]
  by (simp add: InjectFields_def injectFieldsWithRoot_def)

theorem InjectFields_idempotent_on_stable_trees_witness:
  "stableTree
     [[(''name'', VString ''event''), (''type'', VString ''group''),
       (''fields'', VList [VMap [(''name'', VString ''outcome''), (''type'', VString ''keyword'')]])]] \<and>
   InjectFields None
     [[(''name'', VString ''event''), (''type'', VString ''group''),
       (''fields'', VList [VMap [(''name'', VString ''outcome''), (''type'', VString ''keyword'')]])]]
   = Returns
       ([[(''name'', VString ''event''), (''type'', VString ''group''),
          (''fields'', VMapStrs [[(''name'', VString ''outcome''), (''type'', VString ''keyword'')]])]],
        False, None) \<and>
   sameTree
     [[(''name'', VString ''event''), (''type'', VString ''group''),
       (''fields'', VMapStrs [[(''name'', VString ''outcome''), (''type'', VString ''keyword'')]])]]
     [[(''name'', VString ''event''), (''type'', VString ''group''),
       (''fields'', VList [VMap [(''name'', VString ''outcome''), (''type'', VString ''keyword'')]])]]"
proof -
  let ?t = "[[(''name'', VString ''event''), (''type'', VString ''group''),
       (''fields'', VList [VMap [(''name'', VString ''outcome''), (''type'', VString ''keyword'')]])]]"
  have h: "stableTree ?t"
    by (simp add: isString_def GetValue_def skipField_def)
  have run: "InjectFields None ?t = Returns
       ([[(''name'', VString ''event''), (''type'', VString ''group''),
          (''fields'', VMapStrs [[(''name'', VString ''outcome''), (''type'', VString ''keyword'')]])]],
        False, None)"
    by (simp add: eval_defs)
  from InjectFields_idempotent_on_stable_trees [OF h, of None]
  obtain out where o: "InjectFields None ?t = Returns (out, False, None)" and s: "sameTree out ?t"
    by blast
  from o run have "out = [[(''name'', VString ''event''), (''type'', VString ''group''),
          (''fields'', VMapStrs [[(''name'', VString ''outcome''), (''type'', VString ''keyword'')]])]]"
    by simp
  with s have "sameTree
     [[(''name'', VString ''event''), (''type'', VString ''group''),
       (''fields'', VMapStrs [[(''name'', VString ''outcome''), (''type'', VString ''keyword'')]])]] ?t"
    by simp
  with h run show ?thesis by (intro conjI)
qed

end
